theory Spec2Isabelle
  imports Complex_Main
begin

section \<open>Values, types and errors of \<open>pinotdb/db.py\<close>\<close>

text \<open>
  The values that travel through the module are Python objects decoded from JSON or
  handed in as query parameters. \<open>VBool\<close> is Python's \<open>bool\<close>, which is a subclass
  of \<open>int\<close>: \<open>isinstance(True, (int, float))\<close> holds. The payload of a float is never
  inspected by the module. Strings are lists of characters.
\<close>

datatype pyval =
    VNone
  | VStr (str_of: string)
  | VInt int
  | VFloat real
  | VBool (bool_of: bool)
  | VList (elements: "pyval list")
  | VTuple (elements: "pyval list")
  | VDict "(string \<times> pyval) list"

text \<open>\<open>class Type(Enum)\<close>.\<close>

datatype Type = STRING | NUMBER | BOOLEAN

text \<open>
  The messages of the exceptions the module raises, with the values that the source
  formats into them, and the exception classes. \<open>KeyError\<close>, \<open>IndexError\<close>,
  \<open>TypeError\<close>, \<open>ValueError\<close> and \<open>StopIteration\<close> are the interpreter's own.
\<close>

datatype message =
    AlreadyClosed string
  | CalledBeforeExecute
  | UnknownType pyval
  | DifferingColumnType string Type Type
  | ColsDiffer string "string list" "string list"
  | ErrorWhenQuerying string string
  | TimedOut string int int
  | ReturnedAnError string int
  | ServerExceptions "pyval list"
  | BothTotalAndGroupBy
  | ExpectedToContain nat nat
  | TotalWithGbyCols "string list"
  | ExpectedGroupVals nat nat
  | ExpectedMetricVals nat nat
  | NameCollisions nat nat
  | ExecutemanyNotSupported

datatype error =
    Error message
  | DatabaseError message
  | ProgrammingError message
  | NotSupportedError message
  | KeyError pyval
  | IndexError
  | TypeError
  | ValueError
  | AttributeError
  | StopIteration

section \<open>Dictionaries with insertion order\<close>

text \<open>
  A Python \<open>dict\<close> (and an \<open>OrderedDict\<close>) is an association list with distinct keys in
  insertion order: \<open>d[k] = v\<close> overwrites in place when \<open>k\<close> is present and appends
  otherwise; lookup is \<open>map_of\<close>.
\<close>

fun dict_set :: "('k \<times> 'v) list \<Rightarrow> 'k \<Rightarrow> 'v \<Rightarrow> ('k \<times> 'v) list" where
  "dict_set [] k v = [(k, v)]"
| "dict_set ((k', v') # d) k v =
     (if k' = k then (k, v) # d else (k', v') # dict_set d k v)"

text \<open>\<open>dict(pairs)\<close> and \<open>d.update(pairs)\<close>: the pairs are stored left to right.\<close>

fun dict_update :: "('k \<times> 'v) list \<Rightarrow> ('k \<times> 'v) list \<Rightarrow> ('k \<times> 'v) list" where
  "dict_update d [] = d"
| "dict_update d ((k, v) # kvs) = dict_update (dict_set d k v) kvs"

type_synonym row = "(string \<times> pyval) list"

section \<open>Type inference\<close>

text \<open>
  \<open>get_type\<close>: the \<open>isinstance\<close> chain in the order of the source. A \<open>bool\<close> is an
  instance of \<open>int\<close>, so it is caught by the second test; the third test is reached by
  no value.
\<close>

fun isinstance_string_types :: "pyval \<Rightarrow> bool" where
  "isinstance_string_types (VStr s) = True"
| "isinstance_string_types v = False"

fun isinstance_int_float :: "pyval \<Rightarrow> bool" where
  "isinstance_int_float (VInt n) = True"
| "isinstance_int_float (VFloat x) = True"
| "isinstance_int_float (VBool b) = True"
| "isinstance_int_float v = False"

fun isinstance_bool :: "pyval \<Rightarrow> bool" where
  "isinstance_bool (VBool b) = True"
| "isinstance_bool v = False"

fun isinstance_list_tuple :: "pyval \<Rightarrow> bool" where
  "isinstance_list_tuple (VList xs) = True"
| "isinstance_list_tuple (VTuple xs) = True"
| "isinstance_list_tuple v = False"

definition get_type :: "pyval \<Rightarrow> error + Type" where
  "get_type v =
     (if isinstance_string_types v then Inr STRING
      else if isinstance_int_float v then Inr NUMBER
      else if isinstance_bool v then Inr BOOLEAN
      else Inl (Error (UnknownType v)))"

text \<open>
  \<open>get_description_from_rows\<close>. The state of the scan is the dictionary \<open>types\<close> and
  the counter \<open>unknown_columns\<close>. \<open>scan_item\<close> is the body of the inner loop,
  \<open>scan_row\<close> the inner loop, \<open>scan_rows\<close> the outer loop with its \<open>break\<close>.
  \<open>get_type\<close> returns a type or raises, so the \<open>assert\<close> after it never fails.
\<close>

type_synonym scan_state = "(string \<times> Type option) list \<times> int"

definition scan_item :: "scan_state \<Rightarrow> string \<times> pyval \<Rightarrow> error + scan_state" where
  "scan_item st item =
     (case st of (types, unknown_columns) \<Rightarrow>
      case item of (name, v) \<Rightarrow>
      let (types1, unknown1) =
            (if map_of types name = None
             then (dict_set types name None, unknown_columns + 1)
             else (types, unknown_columns));
          current_type = (case map_of types1 name of None \<Rightarrow> None | Some t \<Rightarrow> t)
      in if v \<noteq> VNone then
           (case get_type v of
              Inl e \<Rightarrow> Inl e
            | Inr new_type \<Rightarrow>
                (case current_type of
                   None \<Rightarrow> Inr (dict_set types1 name (Some new_type), unknown1 - 1)
                 | Some t \<Rightarrow>
                     if new_type \<noteq> t
                     then Inl (DatabaseError (DifferingColumnType name t new_type))
                     else Inr (types1, unknown1)))
         else Inr (types1, unknown1))"

fun scan_row :: "scan_state \<Rightarrow> row \<Rightarrow> error + scan_state" where
  "scan_row st [] = Inr st"
| "scan_row st (item # items) =
     (case scan_item st item of Inl e \<Rightarrow> Inl e | Inr st' \<Rightarrow> scan_row st' items)"

fun scan_rows :: "scan_state \<Rightarrow> row list \<Rightarrow> error + scan_state" where
  "scan_rows st [] = Inr st"
| "scan_rows st (r # rows) =
     (case scan_row st r of
        Inl e \<Rightarrow> Inl e
      | Inr st' \<Rightarrow> if snd st' \<le> 0 then Inr st' else scan_rows st' rows)"

type_synonym column_descriptor =
  "string \<times> Type option \<times> unit option \<times> unit option \<times> unit option \<times> unit option \<times> unit option"

definition get_description_from_rows :: "row list \<Rightarrow> error + column_descriptor list" where
  "get_description_from_rows rows =
     (case scan_rows ([], 0) rows of
        Inl e \<Rightarrow> Inl e
      | Inr (types, unknown_columns) \<Rightarrow>
          Inr (map (\<lambda>(name, t). (name, t, None, None, None, None, None)) types))"

text \<open>
  What the counter \<open>unknown_columns\<close> is meant to count: the columns of \<open>types\<close>
  that have no type yet.
\<close>

definition unresolved :: "(string \<times> Type option) list \<Rightarrow> nat" where
  "unresolved types = length (filter (\<lambda>c. snd c = None) types)"

section \<open>Parameter escaping and query templating\<close>

definition quote :: char where
  "quote = CHR 0x27"

text \<open>\<open>value.replace("'", "''")\<close>.\<close>

fun replace_quote :: "string \<Rightarrow> string" where
  "replace_quote [] = []"
| "replace_quote (c # cs) =
     (if c = quote then quote # quote # replace_quote cs else c # replace_quote cs)"

text \<open>\<open>sep.join(items)\<close> on strings.\<close>

fun join :: "string \<Rightarrow> string list \<Rightarrow> string" where
  "join sep [] = []"
| "join sep [s] = s"
| "join sep (s # t # ss) = s @ sep @ join sep (t # ss)"

text \<open>
  \<open>', '.join(escape(element) for element in value)\<close>: the generator is run to its end
  first, so an exception of an element comes first; then every item has to be a \<open>str\<close>,
  or \<open>join\<close> raises \<open>TypeError\<close>.
\<close>

fun first_error :: "(error + 'a) list \<Rightarrow> error option" where
  "first_error [] = None"
| "first_error (Inl e # rs) = Some e"
| "first_error (Inr v # rs) = first_error rs"

definition join_escaped :: "(error + pyval) list \<Rightarrow> error + pyval" where
  "join_escaped rs =
     (case first_error rs of
        Some e \<Rightarrow> Inl e
      | None \<Rightarrow>
          if list_all (\<lambda>r. case r of Inl e \<Rightarrow> False | Inr v \<Rightarrow> isinstance_string_types v) rs
          then Inr (VStr (join '', '' (map (\<lambda>r. case r of Inl e \<Rightarrow> [] | Inr v \<Rightarrow> str_of v) rs)))
          else Inl TypeError)"

text \<open>
  \<open>escape\<close>: the \<open>if\<close>/\<open>elif\<close> chain in the order of the source. A value that no
  test accepts falls off the end of the function, which returns \<open>None\<close>.
\<close>

function escape :: "pyval \<Rightarrow> error + pyval" where
  "escape v =
     (if v = VStr ''*'' then Inr v
      else if isinstance_string_types v
        then Inr (VStr ([quote] @ replace_quote (str_of v) @ [quote]))
      else if isinstance_int_float v then Inr v
      else if isinstance_bool v then Inr (VStr (if bool_of v then ''TRUE'' else ''FALSE''))
      else if isinstance_list_tuple v then join_escaped (map escape (elements v))
      else Inr VNone)"
  by pat_completeness auto
termination
proof (relation "measure size")
  show "wf (measure (size :: pyval \<Rightarrow> nat))" by simp
next
  fix v x :: pyval
  assume "isinstance_list_tuple v" and "x \<in> set (elements v)"
  then have "size x < size v"
    by (cases v) (auto simp: less_Suc_eq_le size_list_estimation')
  then show "(x, v) \<in> measure size" by simp
qed

declare escape.simps [simp del]

text \<open>
  \<open>apply_parameters\<close>. The \<open>%\<close> operator of Python's \<open>str\<close> with a dictionary on its
  right is the interpreter's, not the module's: it is the parameter \<open>percent\<close>, which
  returns the interpolated text or raises.
\<close>

type_synonym percent_format = "string \<Rightarrow> (string \<times> pyval) list \<Rightarrow> error + string"

fun escape_items ::
  "(string \<times> pyval) list \<Rightarrow> (string \<times> pyval) list \<Rightarrow> error + (string \<times> pyval) list" where
  "escape_items acc [] = Inr acc"
| "escape_items acc ((key, v) # kvs) =
     (case escape v of
        Inl e \<Rightarrow> Inl e
      | Inr ev \<Rightarrow> escape_items (dict_set acc key ev) kvs)"

definition apply_parameters ::
  "percent_format \<Rightarrow> string \<Rightarrow> (string \<times> pyval) list \<Rightarrow> error + string" where
  "apply_parameters percent operation parameters =
     (case escape_items [] parameters of
        Inl e \<Rightarrow> Inl e
      | Inr escaped_parameters \<Rightarrow> percent operation escaped_parameters)"

section \<open>The decoded response\<close>

text \<open>
  The JSON payload, typed after the shapes the query endpoint sends. A key that the
  source reads with \<open>.get\<close>, tests with \<open>in\<close>, or that some shapes lack is an
  \<open>option\<close> (\<open>None\<close>: the key is absent); the group values of a grouped entry are
  strings. \<open>json = None\<close> stands for a body that \<open>r.json()\<close> cannot decode.
\<close>

record gb_result =
  group :: "string list"
  gb_value :: pyval

record metric =
  agg_function :: "string option"
  groupByColumns :: "string list option"
  groupByResult :: "gb_result list option"
  agg_value :: "pyval option"

record selection =
  sel_columns :: "string list"
  sel_results :: "pyval list list"

record payload =
  numServersResponded :: "int option"
  numServersQueried :: "int option"
  exceptions :: "pyval list option"
  aggregationResults :: "metric list option"
  selectionResults :: "selection option"

record http_response =
  status_code :: int
  json :: "payload option"
  resp_text :: string

section \<open>Aggregation results\<close>

text \<open>\<open>get_group_by_column_names\<close>: the loop, started with the empty list.\<close>

fun group_by_cols_loop :: "string list \<Rightarrow> metric list \<Rightarrow> error + string list" where
  "group_by_cols_loop group_by_cols [] = Inr group_by_cols"
| "group_by_cols_loop group_by_cols (m # ms) =
     (let metric_name = (case agg_function m of None \<Rightarrow> ''noname'' | Some f \<Rightarrow> f);
          gby_cols_for_metric = (case groupByColumns m of None \<Rightarrow> [] | Some cs \<Rightarrow> cs)
      in if group_by_cols \<noteq> [] \<and> group_by_cols \<noteq> gby_cols_for_metric
         then Inl (DatabaseError (ColsDiffer metric_name gby_cols_for_metric group_by_cols))
         else if group_by_cols = [] then group_by_cols_loop gby_cols_for_metric ms
         else group_by_cols_loop group_by_cols ms)"

definition get_group_by_column_names :: "metric list \<Rightarrow> error + string list" where
  "get_group_by_column_names aggregation_results = group_by_cols_loop [] aggregation_results"

text \<open>\<open>[agg_result['function'] for agg_result in aggregation_results]\<close>.\<close>

fun metric_names_of :: "metric list \<Rightarrow> error + string list" where
  "metric_names_of [] = Inr []"
| "metric_names_of (m # ms) =
     (case agg_function m of
        None \<Rightarrow> Inl (KeyError (VStr ''function''))
      | Some f \<Rightarrow>
          (case metric_names_of ms of Inl e \<Rightarrow> Inl e | Inr fs \<Rightarrow> Inr (f # fs)))"

type_synonym gby_rows = "(string list \<times> pyval list) list"

text \<open>
  The group key of one entry of a \<open>groupByResult\<close>: the three-way comparison of the
  lengths, and the repair of a list that is too long. \<open>new_group_values[0]\<close> raises
  \<open>IndexError\<close> on an empty list.
\<close>

definition group_key :: "string list \<Rightarrow> string list \<Rightarrow> error + string list" where
  "group_key gby_cols group_values =
     (if length group_values < length gby_cols
      then Inl (DatabaseError (ExpectedToContain (length gby_cols) (length group_values)))
      else if length group_values > length gby_cols
      then (let extra = length group_values - length gby_cols;
                new_group_values = drop extra group_values
            in case new_group_values of
                 [] \<Rightarrow> Inl IndexError
               | first # rest \<Rightarrow> Inr ((join [] (take extra group_values) @ first) # rest))
      else Inr group_values)"

text \<open>\<open>gby_rows[key][i] = v\<close>.\<close>

definition set_slot :: "gby_rows \<Rightarrow> string list \<Rightarrow> nat \<Rightarrow> pyval \<Rightarrow> error + gby_rows" where
  "set_slot gby_rows key i v =
     (case map_of gby_rows key of
        None \<Rightarrow> Inl (KeyError (VTuple (map VStr key)))
      | Some slots \<Rightarrow>
          if i < length slots then Inr (dict_set gby_rows key (slots[i := v]))
          else Inl IndexError)"

text \<open>\<open>if key not in gby_rows: gby_rows[key] = [None] * num_metrics\<close>.\<close>

definition ensure_key :: "gby_rows \<Rightarrow> string list \<Rightarrow> nat \<Rightarrow> gby_rows" where
  "ensure_key gby_rows key num_metrics =
     (if map_of gby_rows key = None
      then dict_set gby_rows key (replicate num_metrics VNone)
      else gby_rows)"

text \<open>The loop over the entries of one metric's \<open>groupByResult\<close>.\<close>

fun group_loop ::
  "string list \<Rightarrow> nat \<Rightarrow> nat \<Rightarrow> gby_rows \<Rightarrow> gb_result list \<Rightarrow> error + gby_rows" where
  "group_loop gby_cols num_metrics i gby_rows [] = Inr gby_rows"
| "group_loop gby_cols num_metrics i gby_rows (gb # gbs) =
     (case group_key gby_cols (group gb) of
        Inl e \<Rightarrow> Inl e
      | Inr group_values_key \<Rightarrow>
          (case set_slot (ensure_key gby_rows group_values_key num_metrics)
                  group_values_key i (gb_value gb) of
             Inl e \<Rightarrow> Inl e
           | Inr gby_rows' \<Rightarrow> group_loop gby_cols num_metrics i gby_rows' gbs))"

text \<open>
  The loop over \<open>enumerate(aggregation_results)\<close>. The key of the row of totals,
  \<open>total_group_vals_key\<close>, is the empty tuple.
\<close>

fun metric_loop ::
  "string list \<Rightarrow> nat \<Rightarrow> gby_rows \<Rightarrow> (nat \<times> metric) list \<Rightarrow> error + gby_rows" where
  "metric_loop gby_cols num_metrics gby_rows [] = Inr gby_rows"
| "metric_loop gby_cols num_metrics gby_rows ((i, agg_result) # rest) =
     (case groupByResult agg_result of
        Some gb_results \<Rightarrow>
          if map_of gby_rows [] \<noteq> None then Inl (DatabaseError BothTotalAndGroupBy)
          else (case group_loop gby_cols num_metrics i gby_rows gb_results of
                  Inl e \<Rightarrow> Inl e
                | Inr gby_rows' \<Rightarrow> metric_loop gby_cols num_metrics gby_rows' rest)
      | None \<Rightarrow>
          (let gby_rows1 = ensure_key gby_rows [] num_metrics
           in if length gby_rows1 \<noteq> 1 then Inl (DatabaseError BothTotalAndGroupBy)
              else if length gby_cols > 0 then Inl (DatabaseError (TotalWithGbyCols gby_cols))
              else (case agg_value agg_result of
                      None \<Rightarrow> Inl (KeyError (VStr ''value''))
                    | Some v \<Rightarrow>
                        (case set_slot gby_rows1 [] i v of
                           Inl e \<Rightarrow> Inl e
                         | Inr gby_rows' \<Rightarrow> metric_loop gby_cols num_metrics gby_rows' rest))))"

text \<open>The loop over \<open>gby_rows.items()\<close> that builds the rows.\<close>

fun rows_loop :: "string list \<Rightarrow> string list \<Rightarrow> gby_rows \<Rightarrow> error + row list" where
  "rows_loop gby_cols metric_names [] = Inr []"
| "rows_loop gby_cols metric_names ((group_vals, metric_vals) # rest) =
     (if length group_vals \<noteq> length gby_cols
      then Inl (DatabaseError (ExpectedGroupVals (length gby_cols) (length group_vals)))
      else if length metric_vals \<noteq> length metric_names
      then Inl (DatabaseError (ExpectedMetricVals (length metric_names) (length metric_vals)))
      else (let r = dict_update (dict_update [] (zip gby_cols (map VStr group_vals)))
                      (zip metric_names metric_vals)
            in if length r \<noteq> length gby_cols + length metric_names
               then Inl (DatabaseError
                      (NameCollisions (length gby_cols + length metric_names) (length r)))
               else (case rows_loop gby_cols metric_names rest of
                       Inl e \<Rightarrow> Inl e
                     | Inr rows \<Rightarrow> Inr (r # rows))))"

text \<open>The branch of \<open>Cursor.execute\<close> for a payload with \<open>aggregationResults\<close>.\<close>

definition enumerate :: "'a list \<Rightarrow> (nat \<times> 'a) list" where
  "enumerate xs = zip [0..<length xs] xs"

definition normalize_aggregation :: "metric list \<Rightarrow> error + row list" where
  "normalize_aggregation aggregation_results =
     (case get_group_by_column_names aggregation_results of
        Inl e \<Rightarrow> Inl e
      | Inr gby_cols \<Rightarrow>
          (case metric_names_of aggregation_results of
             Inl e \<Rightarrow> Inl e
           | Inr metric_names \<Rightarrow>
               (case metric_loop gby_cols (length metric_names) []
                       (enumerate aggregation_results) of
                  Inl e \<Rightarrow> Inl e
                | Inr gby_rows \<Rightarrow> rows_loop gby_cols metric_names gby_rows)))"

text \<open>The three shapes of a payload: aggregation, selection, empty.\<close>

definition decode_rows :: "payload \<Rightarrow> error + row list" where
  "decode_rows p =
     (case aggregationResults p of
        Some aggregation_results \<Rightarrow> normalize_aggregation aggregation_results
      | None \<Rightarrow>
          (case selectionResults p of
             Some res \<Rightarrow>
               Inr (map (\<lambda>result. dict_update [] (zip (sel_columns res) result))
                      (sel_results res))
           | None \<Rightarrow> Inr []))"

section \<open>The cursor\<close>

text \<open>
  The attributes of a \<open>Cursor\<close> that its methods read or write: \<open>closed\<close>,
  \<open>description\<close>, \<open>rowcount\<close>, \<open>arraysize\<close>, \<open>_results\<close> (here \<open>results\<close>)
  and \<open>_extra_request_headers\<close>. A fetched row is a \<open>Row\<close> named tuple, kept as the
  list of its values. The URL and the debug flag only feed the request and the log.

  A method takes the object and returns its outcome (\<open>Inl\<close> the exception raised)
  together with the object as the call leaves it.
\<close>

record cursor =
  arraysize :: int
  cursor_closed :: bool
  description :: "column_descriptor list option"
  rowcount :: int
  results :: "pyval list list option"
  extra_request_headers :: "(string \<times> string) list"

type_synonym ('s, 'a) call = "'s \<Rightarrow> (error + 'a) \<times> 's"

text \<open>The two decorators; \<open>cls\<close> is \<open>self.__class__.__name__\<close>.\<close>

definition check_closed :: "string \<Rightarrow> ('s \<Rightarrow> bool) \<Rightarrow> ('s, 'a) call \<Rightarrow> ('s, 'a) call" where
  "check_closed cls is_closed f self =
     (if is_closed self then (Inl (Error (AlreadyClosed cls)), self) else f self)"

definition check_result :: "(cursor, 'a) call \<Rightarrow> (cursor, 'a) call" where
  "check_result f self =
     (if results self = None then (Inl (Error CalledBeforeExecute), self) else f self)"

text \<open>\<open>str.split(sep)\<close> for a separator of one character.\<close>

fun split :: "char \<Rightarrow> string \<Rightarrow> string list" where
  "split sep [] = [[]]"
| "split sep (c # cs) =
     (if c = sep then [] # split sep cs
      else (case split sep cs of [] \<Rightarrow> [[c]] | p # ps \<Rightarrow> (c # p) # ps))"

text \<open>\<open>Cursor.__init__\<close>: \<open>k, v = header.split('=')\<close> needs exactly two pieces.\<close>

fun headers_loop ::
  "(string \<times> string) list \<Rightarrow> string list \<Rightarrow> error + (string \<times> string) list" where
  "headers_loop extra_headers [] = Inr extra_headers"
| "headers_loop extra_headers (header # hs) =
     (case split (CHR ''='') header of
        [k, v] \<Rightarrow> headers_loop (dict_set extra_headers k v) hs
      | _ \<Rightarrow> Inl ValueError)"

definition Cursor_init :: "string \<Rightarrow> error + cursor" where
  "Cursor_init extra_request_headers_arg =
     (case (if extra_request_headers_arg \<noteq> []
            then headers_loop [] (split (CHR '','') extra_request_headers_arg)
            else Inr []) of
        Inl e \<Rightarrow> Inl e
      | Inr extra_headers \<Rightarrow>
          Inr \<lparr>arraysize = 1, cursor_closed = False, description = None, rowcount = - 1,
               results = None, extra_request_headers = extra_headers\<rparr>)"

definition Cursor_close :: "(cursor, unit) call" where
  "Cursor_close =
     check_closed ''Cursor'' cursor_closed (\<lambda>self. (Inr (), self\<lparr>cursor_closed := True\<rparr>))"

text \<open>
  \<open>Cursor.execute\<close>. The HTTP round trip is the parameter \<open>post\<close>, from the headers
  and the query text to the response. The end of the method, from
  \<open>self.description = None\<close> on, is \<open>store_rows\<close>: the attributes are reset before the
  description is inferred, and stay so when inference raises. \<open>Row(*row.values())\<close>
  raises \<open>TypeError\<close> on a row that has not as many values as the first row has
  keys.
\<close>

fun row_tuples :: "nat \<Rightarrow> row list \<Rightarrow> error + pyval list list" where
  "row_tuples n [] = Inr []"
| "row_tuples n (r # rs) =
     (if length r \<noteq> n then Inl TypeError
      else (case row_tuples n rs of Inl e \<Rightarrow> Inl e | Inr ts \<Rightarrow> Inr (map snd r # ts)))"

definition store_rows :: "row list \<Rightarrow> (cursor, unit) call" where
  "store_rows rows self =
     (let self1 = self\<lparr>description := None, results := Some []\<rparr>
      in case rows of
           [] \<Rightarrow> (Inr (), self1)
         | first # _ \<Rightarrow>
             (case get_description_from_rows rows of
                Inl e \<Rightarrow> (Inl e, self1)
              | Inr d \<Rightarrow>
                  (let self2 = self1\<lparr>description := Some d\<rparr>
                   in case row_tuples (length first) rows of
                        Inl e \<Rightarrow> (Inl e, self2)
                      | Inr ts \<Rightarrow> (Inr (), self2\<lparr>results := Some ts\<rparr>))))"

type_synonym transport = "(string \<times> string) list \<Rightarrow> string \<Rightarrow> http_response"

text \<open>\<open>headers\<close>, after \<open>headers.update(self._extra_request_headers)\<close>.\<close>

definition request_headers :: "cursor \<Rightarrow> (string \<times> string) list" where
  "request_headers self =
     dict_update [(''Content-Type'', ''application/json'')] (extra_request_headers self)"

definition execute_body ::
  "percent_format \<Rightarrow> transport \<Rightarrow> string \<Rightarrow> (string \<times> pyval) list option \<Rightarrow>
   (cursor, unit) call" where
  "execute_body percent post operation parameters self =
     (case apply_parameters percent operation
             (case parameters of None \<Rightarrow> [] | Some ps \<Rightarrow> ps) of
        Inl e \<Rightarrow> (Inl e, self)
      | Inr query \<Rightarrow>
          (let headers = request_headers self;
               r = post headers query
           in case json r of
                None \<Rightarrow> (Inl (DatabaseError (ErrorWhenQuerying query (resp_text r))), self)
              | Some p \<Rightarrow>
                  (let num_servers_responded =
                         (case numServersResponded p of None \<Rightarrow> - 1 | Some n \<Rightarrow> n);
                       num_servers_queried =
                         (case numServersQueried p of None \<Rightarrow> - 1 | Some n \<Rightarrow> n)
                   in if num_servers_queried > num_servers_responded
                         \<or> num_servers_responded = - 1 \<or> num_servers_queried = - 1
                      then (Inl (DatabaseError
                              (TimedOut query num_servers_queried num_servers_responded)), self)
                      else if status_code r \<noteq> 200
                      then (Inl (ProgrammingError (ReturnedAnError query (status_code r))), self)
                      else if (case exceptions p of None \<Rightarrow> [] | Some es \<Rightarrow> es) \<noteq> []
                      then (Inl (DatabaseError
                              (ServerExceptions
                                 (case exceptions p of None \<Rightarrow> [] | Some es \<Rightarrow> es))), self)
                      else (case decode_rows p of
                              Inl e \<Rightarrow> (Inl e, self)
                            | Inr rows \<Rightarrow> store_rows rows self))))"

definition Cursor_execute ::
  "percent_format \<Rightarrow> transport \<Rightarrow> string \<Rightarrow> (string \<times> pyval) list option \<Rightarrow>
   (cursor, unit) call" where
  "Cursor_execute percent post operation parameters =
     check_closed ''Cursor'' cursor_closed (execute_body percent post operation parameters)"

definition Cursor_executemany :: "(cursor, unit) call" where
  "Cursor_executemany =
     check_closed ''Cursor'' cursor_closed
       (\<lambda>self. (Inl (NotSupportedError ExecutemanyNotSupported), self))"

text \<open>\<open>fetchone\<close>: \<open>pop(0)\<close> raises \<open>IndexError\<close> on the empty list, which is caught.\<close>

definition Cursor_fetchone :: "(cursor, pyval list option) call" where
  "Cursor_fetchone =
     check_result (check_closed ''Cursor'' cursor_closed
       (\<lambda>self. case results self of
                  None \<Rightarrow> (Inl AttributeError, self)
                | Some [] \<Rightarrow> (Inr None, self)
                | Some (r # rs) \<Rightarrow> (Inr (Some r), self\<lparr>results := Some rs\<rparr>)))"

text \<open>The slices \<open>xs[:n]\<close> and \<open>xs[n:]\<close>; a negative \<open>n\<close> counts from the end.\<close>

definition slice_to :: "int \<Rightarrow> 'a list \<Rightarrow> 'a list" where
  "slice_to n xs = (if 0 \<le> n then take (nat n) xs else take (length xs - nat (- n)) xs)"

definition slice_from :: "int \<Rightarrow> 'a list \<Rightarrow> 'a list" where
  "slice_from n xs = (if 0 \<le> n then drop (nat n) xs else drop (length xs - nat (- n)) xs)"

definition Cursor_fetchmany :: "int option \<Rightarrow> (cursor, pyval list list) call" where
  "Cursor_fetchmany size_arg =
     check_result (check_closed ''Cursor'' cursor_closed
       (\<lambda>self. let n = (case size_arg of
                           None \<Rightarrow> arraysize self
                         | Some k \<Rightarrow> if k = 0 then arraysize self else k)
                in case results self of
                     None \<Rightarrow> (Inl TypeError, self)
                   | Some rs \<Rightarrow> (Inr (slice_to n rs), self\<lparr>results := Some (slice_from n rs)\<rparr>)))"

definition Cursor_setinputsizes :: "(cursor, unit) call" where
  "Cursor_setinputsizes = check_closed ''Cursor'' cursor_closed (\<lambda>self. (Inr (), self))"

definition Cursor_setoutputsizes :: "(cursor, unit) call" where
  "Cursor_setoutputsizes = check_closed ''Cursor'' cursor_closed (\<lambda>self. (Inr (), self))"

definition Cursor_iter :: "(cursor, unit) call" where
  "Cursor_iter = check_closed ''Cursor'' cursor_closed (\<lambda>self. (Inr (), self))"

definition Cursor_next :: "(cursor, pyval list) call" where
  "Cursor_next =
     check_closed ''Cursor'' cursor_closed
       (\<lambda>self. case Cursor_fetchone self of
                  (Inl e, self') \<Rightarrow> (Inl e, self')
                | (Inr None, self') \<Rightarrow> (Inl StopIteration, self')
                | (Inr (Some output), self') \<Rightarrow> (Inr output, self'))"

text \<open>
  \<open>list(self)\<close>: \<open>__iter__\<close> once, then \<open>__next__\<close> until it raises
  \<open>StopIteration\<close>; any other exception leaves the loop. Every round that goes on has
  popped a row, so the loop ends.
\<close>

function list_loop :: "(cursor, pyval list list) call" where
  "list_loop self =
     (case Cursor_next self of
        (Inl e, self') \<Rightarrow> if e = StopIteration then (Inr [], self') else (Inl e, self')
      | (Inr out, self') \<Rightarrow>
          (case list_loop self' of
             (Inl e, self'') \<Rightarrow> (Inl e, self'')
           | (Inr outs, self'') \<Rightarrow> (Inr (out # outs), self'')))"
  by pat_completeness auto
termination
  apply (relation "measure (\<lambda>self. case results self of None \<Rightarrow> 0 | Some rs \<Rightarrow> length rs)")
   apply simp
  apply (auto simp: Cursor_next_def Cursor_fetchone_def check_closed_def check_result_def
             split: if_splits option.splits list.splits prod.splits sum.splits)
  done

declare list_loop.simps [simp del]

definition list_of_cursor :: "(cursor, pyval list list) call" where
  "list_of_cursor self =
     (case Cursor_iter self of
        (Inl e, self') \<Rightarrow> (Inl e, self')
      | (Inr u, self') \<Rightarrow> list_loop self')"

definition Cursor_fetchall :: "(cursor, pyval list list) call" where
  "Cursor_fetchall = check_result (check_closed ''Cursor'' cursor_closed list_of_cursor)"

section \<open>The connection\<close>

text \<open>
  A \<open>Connection\<close> keeps the cursors it has made in the list \<open>cursors\<close>, and the caller
  holds the same objects: the cursors live in a store (a list, a reference is an
  index), and the connection holds references. \<open>extra_request_headers_arg\<close> is the
  keyword argument that \<open>Cursor.__init__\<close> parses.
\<close>

record connection =
  conn_closed :: bool
  cursors :: "nat list"
  extra_request_headers_arg :: string

type_synonym store = "cursor list"

definition Connection_init :: "string \<Rightarrow> connection" where
  "Connection_init hdrs = \<lparr>conn_closed = False, cursors = [], extra_request_headers_arg = hdrs\<rparr>"

text \<open>
  The loop of \<open>Connection.close\<close>: \<open>except exceptions.Error: pass\<close> swallows the
  exception of a cursor that is closed already.
\<close>

fun close_cursors :: "store \<Rightarrow> nat list \<Rightarrow> (error + unit) \<times> store" where
  "close_cursors h [] = (Inr (), h)"
| "close_cursors h (ref # refs) =
     (if ref < length h then
        (case Cursor_close (h ! ref) of
           (Inl (Error m), c') \<Rightarrow> close_cursors (h[ref := c']) refs
         | (Inl e, c') \<Rightarrow> (Inl e, h[ref := c'])
         | (Inr u, c') \<Rightarrow> close_cursors (h[ref := c']) refs)
      else close_cursors h refs)"

definition Connection_close :: "(store \<times> connection, unit) call" where
  "Connection_close =
     check_closed ''Connection'' (\<lambda>(h, self). conn_closed self)
       (\<lambda>(h, self).
          let self1 = self\<lparr>conn_closed := True\<rparr>
          in case close_cursors h (cursors self1) of (res, h') \<Rightarrow> (res, (h', self1)))"

definition Connection_commit :: "(store \<times> connection, unit) call" where
  "Connection_commit =
     check_closed ''Connection'' (\<lambda>(h, self). conn_closed self) (\<lambda>s. (Inr (), s))"

definition Connection_cursor :: "(store \<times> connection, nat) call" where
  "Connection_cursor =
     check_closed ''Connection'' (\<lambda>(h, self). conn_closed self)
       (\<lambda>(h, self).
          case Cursor_init (extra_request_headers_arg self) of
            Inl e \<Rightarrow> (Inl e, (h, self))
          | Inr c \<Rightarrow> (Inr (length h), (h @ [c], self\<lparr>cursors := cursors self @ [length h]\<rparr>)))"

definition Connection_execute ::
  "percent_format \<Rightarrow> transport \<Rightarrow> string \<Rightarrow> (string \<times> pyval) list option \<Rightarrow>
   (store \<times> connection, nat) call" where
  "Connection_execute percent post operation parameters =
     check_closed ''Connection'' (\<lambda>(h, self). conn_closed self)
       (\<lambda>s. case Connection_cursor s of
               (Inl e, s') \<Rightarrow> (Inl e, s')
             | (Inr ref, (h, self)) \<Rightarrow>
                 (case Cursor_execute percent post operation parameters (h ! ref) of
                    (Inl e, c') \<Rightarrow> (Inl e, (h[ref := c'], self))
                  | (Inr u, c') \<Rightarrow> (Inr ref, (h[ref := c'], self))))"

definition Connection_enter :: "(store \<times> connection, nat) call" where
  "Connection_enter = Connection_cursor"

definition Connection_exit :: "(store \<times> connection, unit) call" where
  "Connection_exit = Connection_close"

section \<open>Un-escaping, as the specification words it\<close>

text \<open>
  The module has no inverse of \<open>escape\<close>. The specification's round trip un-escapes
  the escaper's output: a text wrapped in single quotes loses the wrapping and every
  doubled quote becomes one quote again; any other text (the asterisk) is left as it is.
\<close>

fun undouble_quote :: "string \<Rightarrow> string" where
  "undouble_quote (c # d # cs) =
     (if c = quote \<and> d = quote then quote # undouble_quote cs
      else c # undouble_quote (d # cs))"
| "undouble_quote cs = cs"

definition unescape_spec :: "string \<Rightarrow> string" where
  "unescape_spec t =
     (if 2 \<le> length t \<and> hd t = quote \<and> last t = quote
      then undouble_quote (butlast (tl t)) else t)"

section \<open>Example inputs\<close>

text \<open>The response of the grouped-row merge example: \<open>count\<close> grouped by \<open>city\<close>.\<close>

definition example_metrics :: "metric list" where
  "example_metrics =
     [\<lparr>agg_function = Some ''count'', groupByColumns = Some [''city''],
       groupByResult = Some [\<lparr>group = [''NYC''], gb_value = VInt 5\<rparr>,
                             \<lparr>group = [''SF''], gb_value = VInt 2\<rparr>],
       agg_value = None\<rparr>]"

text \<open>
  A cursor as \<open>Cursor.__init__\<close> leaves it when no extra headers are given, the
  \<open>%\<close> operator on a template without placeholders (it returns the template), a
  payload of the empty shape with the two server counts, and a transport that answers
  every request with a given status and payload.
\<close>

definition fresh_cursor :: cursor where
  "fresh_cursor =
     \<lparr>arraysize = 1, cursor_closed = False, description = None, rowcount = - 1,
      results = None, extra_request_headers = []\<rparr>"

definition plain_percent :: percent_format where
  "plain_percent operation ps = Inr operation"

definition empty_payload :: "int \<Rightarrow> int \<Rightarrow> payload" where
  "empty_payload queried responded =
     \<lparr>numServersResponded = Some responded, numServersQueried = Some queried,
      exceptions = None, aggregationResults = None, selectionResults = None\<rparr>"

definition respond :: "int \<Rightarrow> payload \<Rightarrow> transport" where
  "respond status p headers query = \<lparr>status_code = status, json = Some p, resp_text = []\<rparr>"

text \<open>The selection example: columns \<open>a\<close>, \<open>b\<close> and two result rows, two servers.\<close>

definition selection_example :: payload where
  "selection_example =
     \<lparr>numServersResponded = Some 2, numServersQueried = Some 2, exceptions = None,
      aggregationResults = None,
      selectionResults =
        Some \<lparr>sel_columns = [''a'', ''b''],
              sel_results = [[VInt 1, VStr ''x''], [VInt 2, VStr ''y'']]\<rparr>\<rparr>"

text \<open>
  A connection with two cursors in the store, the first of them closed already.
\<close>

definition example_store :: store where
  "example_store = [fresh_cursor\<lparr>cursor_closed := True\<rparr>, fresh_cursor]"

definition example_connection :: connection where
  "example_connection = \<lparr>conn_closed = False, cursors = [0, 1], extra_request_headers_arg = []\<rparr>"

text \<open>
  Metrics without \<open>groupByColumns\<close>: a total \<open>sum\<close>, and three grouped \<open>count\<close>
  metrics, one with no entry, one whose entry has an empty \<open>group\<close> list, one whose
  entry has the group \<open>NYC\<close>.
\<close>

definition total_metric :: metric where
  "total_metric =
     \<lparr>agg_function = Some ''sum'', groupByColumns = None, groupByResult = None,
      agg_value = Some (VInt 7)\<rparr>"

definition grouped_no_entries :: metric where
  "grouped_no_entries =
     \<lparr>agg_function = Some ''count'', groupByColumns = None, groupByResult = Some [],
      agg_value = None\<rparr>"

definition grouped_empty_group :: metric where
  "grouped_empty_group =
     \<lparr>agg_function = Some ''count'', groupByColumns = None,
      groupByResult = Some [\<lparr>group = [], gb_value = VInt 5\<rparr>], agg_value = None\<rparr>"


section \<open>Escaping\<close>

lemma replace_quote_concat:
  "replace_quote s = concat (map (\<lambda>c. if c = quote then [quote, quote] else [c]) s)"
  by (induction s) auto

lemma undouble_replace: "undouble_quote (replace_quote s) = s"
proof (induction s)
  case Nil
  show ?case by simp
next
  case (Cons c s)
  show ?case
  proof (cases "c = quote")
    case True
    with Cons show ?thesis by simp
  next
    case False
    with Cons show ?thesis by (cases "replace_quote s") auto
  qed
qed

lemma escape_str:
  "escape (VStr s) =
     Inr (VStr (if s = ''*'' then ''*'' else [quote] @ replace_quote s @ [quote]))"
  by (simp add: escape.simps)

lemma unescape_wrapped: "unescape_spec ([quote] @ replace_quote s @ [quote]) = s"
  by (simp add: unescape_spec_def undouble_replace butlast_append)

lemma unescape_star: "unescape_spec ''*'' = ''*''"
  by (simp add: unescape_spec_def)

text \<open>
  C9. For every text \<open>s\<close> other than the asterisk, \<open>escape\<close> returns \<open>s\<close> wrapped in
  single quotes with every single quote of \<open>s\<close> doubled and every other character
  kept; the text \<open>*\<close> is returned as it is; and un-escaping the output of \<open>escape\<close>
  gives \<open>s\<close> back, for every \<open>s\<close>, the asterisk included.
\<close>

theorem escape_roundtrip:
  "escape (VStr s) =
     Inr (VStr (if s = ''*'' then ''*'' else [quote] @ replace_quote s @ [quote]))
   \<and> replace_quote s = concat (map (\<lambda>c. if c = quote then [quote, quote] else [c]) s)
   \<and> (\<exists>t. escape (VStr s) = Inr (VStr t) \<and> unescape_spec t = s)"
  using escape_str[of s] replace_quote_concat[of s] unescape_wrapped[of s] unescape_star
  by (cases "s = ''*''") simp_all

theorem escape_roundtrip_witness:
  "escape (VStr (''it'' @ [quote] @ ''s'')) =
     Inr (VStr ([quote] @ ''it'' @ [quote, quote] @ ''s'' @ [quote]))
   \<and> unescape_spec ([quote] @ ''it'' @ [quote, quote] @ ''s'' @ [quote]) = ''it'' @ [quote] @ ''s''
   \<and> escape (VStr ''*'') = Inr (VStr ''*'') \<and> unescape_spec ''*'' = ''*''"
  using escape_roundtrip[of "''it'' @ [quote] @ ''s''"] escape_roundtrip[of "''*''"]
  by (auto simp: quote_def)

section \<open>Boolean parameters\<close>

text \<open>
  C2. The claim is that \<open>escape\<close> renders a boolean as the keyword \<open>TRUE\<close> or
  \<open>FALSE\<close>. In the code a boolean passes the test \<open>isinstance(value, (int, float))\<close>,
  which stands before the test for \<open>bool\<close>: \<open>escape\<close> returns the boolean itself,
  not the keyword, and that boolean is what \<open>apply_parameters\<close> hands to the
  \<open>%\<close> operator.
\<close>

theorem escape_bool_returns_bool:
  "escape (VBool b) = Inr (VBool b)
   \<and> escape (VBool b) \<noteq> Inr (VStr (if b then ''TRUE'' else ''FALSE''))
   \<and> apply_parameters percent operation [(key, VBool b)] = percent operation [(key, VBool b)]"
  by (simp add: escape.simps apply_parameters_def)

section \<open>The grouped-row merge example\<close>

text \<open>A key that is stored again keeps its place; a new key goes to the end.\<close>

lemma dict_set_keys:
  "map fst (dict_set d k v) = (if k \<in> fst ` set d then map fst d else map fst d @ [k])"
  by (induction d) force+

lemma map_of_dict_set: "map_of (dict_set d k v) k' = (if k' = k then Some v else map_of d k')"
  by (induction d) auto

lemma keys_dict_set: "fst ` set (dict_set d k v) = insert k (fst ` set d)"
proof -
  have "set (map fst (dict_set d k v)) = insert k (set (map fst d))"
    unfolding dict_set_keys by auto
  then show ?thesis by simp
qed

text \<open>
  C7. For the response whose one metric is \<open>count\<close> grouped by \<open>city\<close>, with the
  entries \<open>NYC\<close>, 5 and then \<open>SF\<close>, 2, the normalization gives exactly two rows,
  \<open>{city: NYC, count: 5}\<close> and then \<open>{city: SF, count: 2}\<close>: the keys come out in the
  order in which they were first seen.
\<close>

theorem grouped_row_merge_example:
  "normalize_aggregation example_metrics =
     Inr [[(''city'', VStr ''NYC''), (''count'', VInt 5)],
          [(''city'', VStr ''SF''), (''count'', VInt 2)]]"
  by (simp add: normalize_aggregation_def example_metrics_def get_group_by_column_names_def
      enumerate_def group_key_def ensure_key_def set_slot_def)

section \<open>The checks of \<open>Cursor.execute\<close>\<close>

text \<open>
  On an open cursor, with a query that could be built and a body that could be
  decoded, \<open>execute\<close> is the chain of its checks in the order of the source.
\<close>

lemma execute_open:
  assumes "\<not> cursor_closed c"
    and "apply_parameters percent operation
           (case parameters of None \<Rightarrow> [] | Some ps \<Rightarrow> ps) = Inr query"
    and "json (post (request_headers c) query) = Some p"
  shows "Cursor_execute percent post operation parameters c =
     (let num_servers_responded = (case numServersResponded p of None \<Rightarrow> - 1 | Some n \<Rightarrow> n);
          num_servers_queried = (case numServersQueried p of None \<Rightarrow> - 1 | Some n \<Rightarrow> n);
          excs = (case exceptions p of None \<Rightarrow> [] | Some es \<Rightarrow> es)
      in if num_servers_queried > num_servers_responded
            \<or> num_servers_responded = - 1 \<or> num_servers_queried = - 1
         then (Inl (DatabaseError
                 (TimedOut query num_servers_queried num_servers_responded)), c)
         else if status_code (post (request_headers c) query) \<noteq> 200
         then (Inl (ProgrammingError
                 (ReturnedAnError query (status_code (post (request_headers c) query)))), c)
         else if excs \<noteq> [] then (Inl (DatabaseError (ServerExceptions excs)), c)
         else (case decode_rows p of Inl e \<Rightarrow> (Inl e, c) | Inr rows \<Rightarrow> store_rows rows c))"
  using assms
  by (simp add: Cursor_execute_def check_closed_def execute_body_def Let_def)

lemmas example_defs =
  plain_percent_def apply_parameters_def respond_def empty_payload_def fresh_cursor_def
  request_headers_def

text \<open>
  C3, as amended. On an open cursor whose query was built and whose response body was
  decoded, \<open>execute\<close> fails with the timed-out error that names the query and both
  counts whenever \<open>numServersQueried\<close> is absent, is \<open>-1\<close> or is greater than
  \<open>numServersResponded\<close>, or \<open>numServersResponded\<close> is \<open>-1\<close> (its value also when
  it is absent). The HTTP status and the list of exceptions play no part: the check
  stands before both. (The claim has the comparison the other way round: more servers
  responding than were queried is not an error.)
\<close>

theorem replica_check_first:
  assumes "\<not> cursor_closed c"
    and "apply_parameters percent operation
           (case parameters of None \<Rightarrow> [] | Some ps \<Rightarrow> ps) = Inr query"
    and "json (post (request_headers c) query) = Some p"
    and "numServersQueried p = None \<or> numServersQueried p = Some (- 1)
         \<or> numServersResponded p = None \<or> numServersResponded p = Some (- 1)
         \<or> (\<exists>q r. numServersQueried p = Some q \<and> numServersResponded p = Some r \<and> q > r)"
  shows "Cursor_execute percent post operation parameters c =
           (Inl (DatabaseError (TimedOut query
              (case numServersQueried p of None \<Rightarrow> - 1 | Some n \<Rightarrow> n)
              (case numServersResponded p of None \<Rightarrow> - 1 | Some n \<Rightarrow> n))), c)"
  using assms(4)
  unfolding execute_open[where c=c and percent=percent and operation=operation
      and parameters=parameters and query=query and post=post and p=p, OF assms(1-3)]
  by (auto simp: Let_def split: option.splits)

theorem replica_check_first_witness:
  "Cursor_execute plain_percent
     (respond 500 ((empty_payload 3 2)\<lparr>exceptions := Some [VStr ''boom'']\<rparr>))
     ''select 1'' None fresh_cursor =
   (Inl (DatabaseError (TimedOut ''select 1'' 3 2)), fresh_cursor)"
  using replica_check_first[where c=fresh_cursor and percent=plain_percent
      and operation="''select 1''" and parameters=None and query="''select 1''"
      and post="respond 500 ((empty_payload 3 2)\<lparr>exceptions := Some [VStr ''boom'']\<rparr>)"
      and p="(empty_payload 3 2)\<lparr>exceptions := Some [VStr ''boom'']\<rparr>"]
  by (simp add: example_defs)

text \<open>
  The claim as stated fails: with two servers queried and three responding
  (\<open>numServersQueried\<close> less than \<open>numServersResponded\<close>) \<open>execute\<close> succeeds.
\<close>

theorem replica_check_counterexample:
  "numServersQueried (empty_payload 2 3) = Some 2
   \<and> numServersResponded (empty_payload 2 3) = Some 3
   \<and> Cursor_execute plain_percent (respond 200 (empty_payload 2 3)) ''select 1'' None
        fresh_cursor = (Inr (), fresh_cursor\<lparr>results := Some []\<rparr>)"
  by (simp add: execute_open example_defs decode_rows_def store_rows_def)

text \<open>
  C4. A payload with \<open>numServersQueried = 3\<close> and \<open>numServersResponded = 2\<close> makes
  \<open>execute\<close> fail with the timed-out error that cites 3 and 2; with both counts 2,
  status 200, no exceptions, and rows that decode and store without an exception,
  \<open>execute\<close> succeeds.
\<close>

theorem partial_response_example:
  assumes "\<not> cursor_closed c"
    and "apply_parameters percent operation
           (case parameters of None \<Rightarrow> [] | Some ps \<Rightarrow> ps) = Inr query"
    and "json (post (request_headers c) query) = Some p"
  shows "(numServersQueried p = Some 3 \<and> numServersResponded p = Some 2 \<longrightarrow>
            Cursor_execute percent post operation parameters c =
              (Inl (DatabaseError (TimedOut query 3 2)), c))
       \<and> (numServersQueried p = Some 2 \<and> numServersResponded p = Some 2
            \<and> status_code (post (request_headers c) query) = 200
            \<and> (exceptions p = None \<or> exceptions p = Some [])
            \<and> decode_rows p = Inr rows \<and> fst (store_rows rows c) = Inr () \<longrightarrow>
            fst (Cursor_execute percent post operation parameters c) = Inr ())"
  unfolding execute_open[where c=c and percent=percent and operation=operation
      and parameters=parameters and query=query and post=post and p=p, OF assms(1-3)]
  by (auto simp: Let_def split: option.splits)

theorem partial_response_example_witness:
  "Cursor_execute plain_percent (respond 200 (empty_payload 3 2)) ''select 1'' None
     fresh_cursor = (Inl (DatabaseError (TimedOut ''select 1'' 3 2)), fresh_cursor)
   \<and> fst (Cursor_execute plain_percent (respond 200 selection_example) ''select 1'' None
            fresh_cursor) = Inr ()"
proof -
  have rows: "decode_rows selection_example =
      Inr [[(''a'', VInt 1), (''b'', VStr ''x'')], [(''a'', VInt 2), (''b'', VStr ''y'')]]"
    by (simp add: decode_rows_def selection_example_def)
  have stored: "fst (store_rows
      [[(''a'', VInt 1), (''b'', VStr ''x'')], [(''a'', VInt 2), (''b'', VStr ''y'')]]
      fresh_cursor) = Inr ()"
    by (simp add: store_rows_def get_description_from_rows_def scan_item_def get_type_def)
  show ?thesis
    using partial_response_example[where c=fresh_cursor and percent=plain_percent
        and operation="''select 1''" and parameters=None and query="''select 1''"
        and post="respond 200 (empty_payload 3 2)" and p="empty_payload 3 2"]
      partial_response_example[where c=fresh_cursor and percent=plain_percent
        and operation="''select 1''" and parameters=None and query="''select 1''"
        and post="respond 200 selection_example" and p=selection_example, OF _ _ _]
      rows stored
    by (simp add: example_defs selection_example_def)
qed

section \<open>Fetching after a result of zero rows\<close>

lemma normalize_no_entries: "normalize_aggregation [] = Inr []"
  by (simp add: normalize_aggregation_def get_group_by_column_names_def enumerate_def)

lemma list_loop_empty:
  "\<not> cursor_closed c \<Longrightarrow> results c = Some [] \<Longrightarrow> list_loop c = (Inr [], c)"
  by (subst list_loop.simps)
     (simp add: Cursor_next_def Cursor_fetchone_def check_closed_def check_result_def)

lemma fetch_after_zero_rows:
  assumes "\<not> cursor_closed c" and "results c = Some []"
  shows "Cursor_fetchone c = (Inr None, c)" and "Cursor_fetchall c = (Inr [], c)"
  using assms
  by (simp_all add: Cursor_fetchone_def Cursor_fetchall_def check_closed_def check_result_def
      list_of_cursor_def Cursor_iter_def list_loop_empty)

text \<open>
  C10. When \<open>execute\<close> passes its checks on an open cursor and the payload yields
  zero rows (the empty shape, \<open>aggregationResults\<close> with no entry, \<open>selectionResults\<close>
  with no result row, or any other payload that decodes to no row), \<open>execute\<close>
  succeeds and leaves \<open>_results\<close> an empty list and \<open>description\<close> \<open>None\<close>; then
  \<open>fetchone\<close> returns \<open>None\<close>, not the called-before-execute error, and \<open>fetchall\<close>
  returns the empty list.
\<close>

theorem zero_rows_executed:
  assumes "\<not> cursor_closed c"
    and "apply_parameters percent operation
           (case parameters of None \<Rightarrow> [] | Some ps \<Rightarrow> ps) = Inr query"
    and "json (post (request_headers c) query) = Some p"
    and "numServersQueried p = Some q" and "numServersResponded p = Some r"
    and "q \<le> r" and "q \<noteq> - 1" and "r \<noteq> - 1"
    and "status_code (post (request_headers c) query) = 200"
    and "exceptions p = None \<or> exceptions p = Some []"
    and "(aggregationResults p = None \<and> selectionResults p = None)
         \<or> aggregationResults p = Some []
         \<or> (aggregationResults p = None
             \<and> (\<exists>res. selectionResults p = Some res \<and> sel_results res = []))
         \<or> decode_rows p = Inr []"
  shows "\<exists>c'. Cursor_execute percent post operation parameters c = (Inr (), c')
            \<and> results c' = Some [] \<and> description c' = None
            \<and> Cursor_fetchone c' = (Inr None, c')
            \<and> Cursor_fetchall c' = (Inr [], c')"
proof -
  let ?c' = "c\<lparr>description := None, results := Some []\<rparr>"
  have rows: "decode_rows p = Inr []"
    using assms(11) by (auto simp: decode_rows_def normalize_no_entries)
  have ex: "Cursor_execute percent post operation parameters c = (Inr (), ?c')"
    unfolding execute_open[where c=c and percent=percent and operation=operation
        and parameters=parameters and query=query and post=post and p=p, OF assms(1-3)]
    using assms(4-10) rows by (auto simp: Let_def store_rows_def)
  have "\<not> cursor_closed ?c'" and "results ?c' = Some []"
    using assms(1) by simp_all
  from fetch_after_zero_rows[OF this] ex show ?thesis by simp
qed

theorem zero_rows_executed_witness:
  "\<exists>c'. Cursor_execute plain_percent (respond 200 (empty_payload 1 1)) ''select 1'' None
           fresh_cursor = (Inr (), c')
        \<and> results c' = Some [] \<and> description c' = None
        \<and> Cursor_fetchone c' = (Inr None, c')
        \<and> Cursor_fetchall c' = (Inr [], c')"
  using zero_rows_executed[where c=fresh_cursor and percent=plain_percent
      and operation="''select 1''" and parameters=None and query="''select 1''"
      and post="respond 200 (empty_payload 1 1)" and p="empty_payload 1 1"
      and q=1 and r=1]
  by (simp add: example_defs)

section \<open>Closed cursors and connections\<close>

lemma Cursor_close_cases:
  "Cursor_close c =
     (if cursor_closed c then (Inl (Error (AlreadyClosed ''Cursor'')), c)
      else (Inr (), c\<lparr>cursor_closed := True\<rparr>))"
  by (simp add: Cursor_close_def check_closed_def)

lemma close_cursors_ok:
  "\<exists>h'. close_cursors h refs = (Inr (), h') \<and> length h' = length h
        \<and> (\<forall>i < length h. cursor_closed (h ! i) \<or> i \<in> set refs \<longrightarrow> cursor_closed (h' ! i))"
proof (induction refs arbitrary: h)
  case Nil
  show ?case by simp
next
  case (Cons ref refs)
  show ?case
  proof (cases "ref < length h")
    case False
    with Cons[of h] show ?thesis by auto
  next
    case True
    define c' where "c' = (if cursor_closed (h ! ref) then h ! ref else (h ! ref)\<lparr>cursor_closed := True\<rparr>)"
    have step: "close_cursors h (ref # refs) = close_cursors (h[ref := c']) refs"
      using True by (simp add: Cursor_close_cases c'_def)
    have closed: "cursor_closed c'" by (simp add: c'_def)
    from Cons[of "h[ref := c']"] obtain h' where
      h': "close_cursors (h[ref := c']) refs = (Inr (), h')" "length h' = length h"
      "\<forall>i < length h. cursor_closed (h[ref := c'] ! i) \<or> i \<in> set refs \<longrightarrow> cursor_closed (h' ! i)"
      by auto
    have "\<forall>i < length h. cursor_closed (h ! i) \<or> i \<in> set (ref # refs) \<longrightarrow> cursor_closed (h' ! i)"
    proof (intro allI impI)
      fix i assume i: "i < length h" and d: "cursor_closed (h ! i) \<or> i \<in> set (ref # refs)"
      have "cursor_closed (h[ref := c'] ! i) \<or> i \<in> set refs"
        using i d closed by (cases "i = ref") auto
      with h'(3) i show "cursor_closed (h' ! i)" by blast
    qed
    with step h'(1,2) show ?thesis by simp
  qed
qed

lemma closed_cursor_ops:
  assumes "cursor_closed c"
  shows "Cursor_close c = (Inl (Error (AlreadyClosed ''Cursor'')), c)"
    and "Cursor_execute percent post operation parameters c = (Inl (Error (AlreadyClosed ''Cursor'')), c)"
    and "Cursor_executemany c = (Inl (Error (AlreadyClosed ''Cursor'')), c)"
    and "Cursor_setinputsizes c = (Inl (Error (AlreadyClosed ''Cursor'')), c)"
    and "Cursor_setoutputsizes c = (Inl (Error (AlreadyClosed ''Cursor'')), c)"
    and "Cursor_iter c = (Inl (Error (AlreadyClosed ''Cursor'')), c)"
    and "Cursor_next c = (Inl (Error (AlreadyClosed ''Cursor'')), c)"
    and "Cursor_fetchone c =
           (Inl (Error (if results c = None then CalledBeforeExecute else AlreadyClosed ''Cursor'')), c)"
    and "Cursor_fetchmany size_arg c =
           (Inl (Error (if results c = None then CalledBeforeExecute else AlreadyClosed ''Cursor'')), c)"
    and "Cursor_fetchall c =
           (Inl (Error (if results c = None then CalledBeforeExecute else AlreadyClosed ''Cursor'')), c)"
  using assms
  by (simp_all add: Cursor_close_def Cursor_execute_def Cursor_executemany_def
      Cursor_setinputsizes_def Cursor_setoutputsizes_def Cursor_iter_def Cursor_next_def
      Cursor_fetchone_def Cursor_fetchmany_def Cursor_fetchall_def check_closed_def check_result_def)

lemma closed_connection_ops:
  assumes "conn_closed conn"
  shows "Connection_close (h, conn) = (Inl (Error (AlreadyClosed ''Connection'')), (h, conn))"
    and "Connection_commit (h, conn) = (Inl (Error (AlreadyClosed ''Connection'')), (h, conn))"
    and "Connection_cursor (h, conn) = (Inl (Error (AlreadyClosed ''Connection'')), (h, conn))"
    and "Connection_execute percent post operation parameters (h, conn) = (Inl (Error (AlreadyClosed ''Connection'')), (h, conn))"
    and "Connection_enter (h, conn) = (Inl (Error (AlreadyClosed ''Connection'')), (h, conn))"
    and "Connection_exit (h, conn) = (Inl (Error (AlreadyClosed ''Connection'')), (h, conn))"
  using assms
  by (simp_all add: Connection_close_def Connection_commit_def Connection_cursor_def
      Connection_execute_def Connection_enter_def Connection_exit_def check_closed_def)

lemma open_connection_close:
  assumes "\<not> conn_closed conn"
  shows "\<exists>h'. Connection_close (h, conn) = (Inr (), (h', conn\<lparr>conn_closed := True\<rparr>))
            \<and> length h' = length h
            \<and> (\<forall>ref \<in> set (cursors conn). ref < length h \<longrightarrow> cursor_closed (h' ! ref))"
proof -
  from close_cursors_ok[of h "cursors conn"] obtain h' where
    h': "close_cursors h (cursors conn) = (Inr (), h')" "length h' = length h"
      "\<forall>i < length h. cursor_closed (h ! i) \<or> i \<in> set (cursors conn) \<longrightarrow> cursor_closed (h' ! i)"
    by auto
  have "Connection_close (h, conn) = (Inr (), (h', conn\<lparr>conn_closed := True\<rparr>))"
    using assms h'(1) by (simp add: Connection_close_def check_closed_def)
  with h'(2,3) show ?thesis by auto
qed

text \<open>
  C8, as amended. Every method of a closed \<open>Cursor\<close> raises \<open>Error\<close> and leaves the
  cursor as it is, \<open>close\<close> included: closing a closed cursor is not a no-op. The
  message is the already-closed one, except that \<open>fetchone\<close>, \<open>fetchmany\<close> and
  \<open>fetchall\<close> on a cursor that never executed raise the called-before-execute
  \<open>Error\<close>, their result check being the outer decorator. Every method of a closed
  \<open>Connection\<close> raises the already-closed \<open>Error\<close>. \<open>close\<close> on an open cursor
  closes it; \<open>close\<close> on an open connection succeeds, whether or not some of its
  cursors are closed already, and leaves the connection and all its cursors closed.
\<close>

theorem closed_resource_guard:
  assumes "cursor_closed c" and "conn_closed conn"
  shows "Cursor_close c = (Inl (Error (AlreadyClosed ''Cursor'')), c)
    \<and> Cursor_execute percent post operation parameters c =
        (Inl (Error (AlreadyClosed ''Cursor'')), c)
    \<and> Cursor_executemany c = (Inl (Error (AlreadyClosed ''Cursor'')), c)
    \<and> Cursor_setinputsizes c = (Inl (Error (AlreadyClosed ''Cursor'')), c)
    \<and> Cursor_setoutputsizes c = (Inl (Error (AlreadyClosed ''Cursor'')), c)
    \<and> Cursor_iter c = (Inl (Error (AlreadyClosed ''Cursor'')), c)
    \<and> Cursor_next c = (Inl (Error (AlreadyClosed ''Cursor'')), c)
    \<and> Cursor_fetchone c =
        (Inl (Error (if results c = None then CalledBeforeExecute
                     else AlreadyClosed ''Cursor'')), c)
    \<and> Cursor_fetchmany size_arg c =
        (Inl (Error (if results c = None then CalledBeforeExecute
                     else AlreadyClosed ''Cursor'')), c)
    \<and> Cursor_fetchall c =
        (Inl (Error (if results c = None then CalledBeforeExecute
                     else AlreadyClosed ''Cursor'')), c)
    \<and> Connection_close (h, conn) = (Inl (Error (AlreadyClosed ''Connection'')), (h, conn))
    \<and> Connection_commit (h, conn) = (Inl (Error (AlreadyClosed ''Connection'')), (h, conn))
    \<and> Connection_cursor (h, conn) = (Inl (Error (AlreadyClosed ''Connection'')), (h, conn))
    \<and> Connection_execute percent post operation parameters (h, conn) =
        (Inl (Error (AlreadyClosed ''Connection'')), (h, conn))
    \<and> Connection_enter (h, conn) = (Inl (Error (AlreadyClosed ''Connection'')), (h, conn))
    \<and> Connection_exit (h, conn) = (Inl (Error (AlreadyClosed ''Connection'')), (h, conn))
    \<and> (\<not> cursor_closed c_open \<longrightarrow> Cursor_close c_open = (Inr (), c_open\<lparr>cursor_closed := True\<rparr>))
    \<and> (\<not> conn_closed conn_open \<longrightarrow>
          (\<exists>h'. Connection_close (h_open, conn_open) = (Inr (), (h', conn_open\<lparr>conn_closed := True\<rparr>))
              \<and> length h' = length h_open
              \<and> (\<forall>ref \<in> set (cursors conn_open). ref < length h_open \<longrightarrow> cursor_closed (h' ! ref))))"
  using closed_cursor_ops[OF assms(1)] closed_connection_ops[OF assms(2)]
    open_connection_close[of conn_open h_open] Cursor_close_cases[of c_open]
  by simp

theorem closed_resource_guard_witness:
  "cursor_closed (snd (Cursor_close fresh_cursor))
   \<and> Cursor_setinputsizes (snd (Cursor_close fresh_cursor)) =
       (Inl (Error (AlreadyClosed ''Cursor'')), snd (Cursor_close fresh_cursor))
   \<and> Cursor_fetchall (snd (Cursor_close fresh_cursor)) =
       (Inl (Error CalledBeforeExecute), snd (Cursor_close fresh_cursor))
   \<and> Connection_commit (example_store, example_connection\<lparr>conn_closed := True\<rparr>) =
       (Inl (Error (AlreadyClosed ''Connection'')),
        (example_store, example_connection\<lparr>conn_closed := True\<rparr>))
   \<and> (\<exists>h'. Connection_close (example_store, example_connection) =
               (Inr (), (h', example_connection\<lparr>conn_closed := True\<rparr>))
          \<and> cursor_closed (h' ! 0) \<and> cursor_closed (h' ! 1))"
proof -
  have closed: "cursor_closed (snd (Cursor_close fresh_cursor))"
    by (simp add: Cursor_close_cases fresh_cursor_def)
  have conn: "conn_closed (example_connection\<lparr>conn_closed := True\<rparr>)"
    by simp
  have never: "results (snd (Cursor_close fresh_cursor)) = None"
    by (simp add: Cursor_close_cases fresh_cursor_def)
  have opened: "\<not> conn_closed example_connection"
    by (simp add: example_connection_def)
  have refs: "cursors example_connection = [0, 1]" "length example_store = 2"
    by (simp_all add: example_connection_def example_store_def)
  show ?thesis
    using closed_resource_guard[where c="snd (Cursor_close fresh_cursor)"
        and conn="example_connection\<lparr>conn_closed := True\<rparr>" and h=example_store
        and c_open=fresh_cursor and conn_open=example_connection and h_open=example_store
        and percent=plain_percent and post="respond 200 (empty_payload 1 1)"
        and operation="''select 1''" and parameters=None and size_arg=None,
        OF closed conn]
      closed never opened refs
    by auto
qed

text \<open>
  The claim as stated fails: closing a cursor a second time raises, and a fetch on a
  closed cursor that never executed raises the called-before-execute error.
\<close>

theorem close_twice_counterexample:
  "Cursor_close (snd (Cursor_close fresh_cursor)) =
     (Inl (Error (AlreadyClosed ''Cursor'')), fresh_cursor\<lparr>cursor_closed := True\<rparr>)
   \<and> Cursor_fetchone (snd (Cursor_close fresh_cursor)) =
     (Inl (Error CalledBeforeExecute), fresh_cursor\<lparr>cursor_closed := True\<rparr>)"
  by (simp add: Cursor_close_def Cursor_fetchone_def check_closed_def check_result_def
      fresh_cursor_def)

section \<open>Schema inference\<close>

lemma scan_row_append:
  "scan_row st before = Inr st' \<Longrightarrow> scan_row st (before @ after) = scan_row st' after"
  by (induction before arbitrary: st) (auto split: sum.splits)

lemma scan_rows_append:
  "scan_rows st0 pre = Inr st \<Longrightarrow> pre = [] \<or> 0 < snd st \<Longrightarrow>
   scan_rows st0 (pre @ rest) = scan_rows st rest"
proof (induction pre arbitrary: st0)
  case Nil
  then show ?case by simp
next
  case (Cons r pre)
  from Cons.prems obtain st' where r: "scan_row st0 r = Inr st'"
    by (auto split: sum.splits)
  from Cons.prems have pos: "0 < snd st" by simp
  show ?case
  proof (cases "snd st' \<le> 0")
    case True
    with Cons.prems(1) r pos show ?thesis by simp
  next
    case False
    with Cons.prems(1) r have rest: "scan_rows st' pre = Inr st" by simp
    from Cons.IH[OF rest] pos have "scan_rows st' (pre @ rest) = scan_rows st rest" by simp
    with r False show ?thesis by simp
  qed
qed

lemma get_type_None: "get_type VNone = Inl (Error (UnknownType VNone))"
  by (simp add: get_type_def)

lemma scan_item_conflict:
  assumes "map_of (fst st) name = Some (Some t)" and "get_type v = Inr t'" and "t' \<noteq> t"
  shows "scan_item st (name, v) = Inl (DatabaseError (DifferingColumnType name t t'))"
proof -
  from assms(2) have "v \<noteq> VNone" by (auto simp: get_type_None)
  with assms show ?thesis
    by (cases st) (simp add: scan_item_def)
qed

text \<open>
  The counter is the number of unresolved columns, the columns of \<open>types\<close> are the
  columns of the rows scanned, and a scan that has stopped does not look at later rows.
\<close>

lemma unresolved_dict_set_new:
  "map_of d k = None \<Longrightarrow> unresolved (dict_set d k None) = Suc (unresolved d)"
  by (induction d) (auto simp: unresolved_def split: if_splits)

lemma unresolved_dict_set_resolve:
  "map_of d k = Some None \<Longrightarrow> Suc (unresolved (dict_set d k (Some t))) = unresolved d"
  by (induction d) (auto simp: unresolved_def split: if_splits)

lemma scan_item_Inr:
  assumes "scan_item (types, u) (name, v) = Inr st'"
  obtains
    (new) "map_of types name = None" "st' = (dict_set types name None, u + 1)"
  | (new_resolved) t where "map_of types name = None"
      "st' = (dict_set (dict_set types name None) name (Some t), u + 1 - 1)"
  | (same) y where "map_of types name = Some y" "st' = (types, u)"
  | (resolved) t where "map_of types name = Some None"
      "st' = (dict_set types name (Some t), u - 1)"
proof (cases "map_of types name")
  case None
  with assms have "st' = (dict_set types name None, u + 1)
      \<or> (\<exists>t. st' = (dict_set (dict_set types name None) name (Some t), u + 1 - 1))"
    by (auto simp: scan_item_def map_of_dict_set split: if_splits sum.splits)
  with None new new_resolved show ?thesis by blast
next
  case (Some y)
  with assms have "st' = (types, u)
      \<or> (y = None \<and> (\<exists>t. st' = (dict_set types name (Some t), u - 1)))"
    by (auto simp: scan_item_def split: if_splits sum.splits option.splits)
  with Some same resolved show ?thesis by blast
qed

lemma scan_item_counter:
  assumes "scan_item st item = Inr st'" and "snd st = int (unresolved (fst st))"
  shows "snd st' = int (unresolved (fst st'))"
proof -
  obtain types u where st: "st = (types, u)" by (cases st)
  obtain name v where item: "item = (name, v)" by (cases item)
  from assms(1) have "scan_item (types, u) (name, v) = Inr st'" by (simp add: st item)
  then show ?thesis
  proof (cases rule: scan_item_Inr)
    case new
    with assms(2) st show ?thesis by (simp add: unresolved_dict_set_new)
  next
    case (new_resolved t)
    have "map_of (dict_set types name None) name = Some None"
      by (simp add: map_of_dict_set)
    from unresolved_dict_set_resolve[OF this, of t] new_resolved assms(2) st
    show ?thesis by (simp add: unresolved_dict_set_new)
  next
    case (same y)
    with assms(2) st show ?thesis by simp
  next
    case (resolved t)
    from unresolved_dict_set_resolve[OF resolved(1), of t] resolved(2) assms(2) st
    show ?thesis by simp
  qed
qed

lemma scan_row_counter:
  "scan_row st r = Inr st' \<Longrightarrow> snd st = int (unresolved (fst st)) \<Longrightarrow>
   snd st' = int (unresolved (fst st'))"
proof (induction r arbitrary: st)
  case Nil
  then show ?case by simp
next
  case (Cons item r)
  then show ?case
    by (auto split: sum.splits dest: scan_item_counter)
qed

lemma scan_rows_counter:
  "scan_rows st rows = Inr st' \<Longrightarrow> snd st = int (unresolved (fst st)) \<Longrightarrow>
   snd st' = int (unresolved (fst st'))"
proof (induction rows arbitrary: st)
  case Nil
  then show ?case by simp
next
  case (Cons r rows)
  then show ?case
    by (auto split: sum.splits if_splits dest: scan_row_counter)
qed

lemma scan_item_keys:
  assumes "scan_item st (name, v) = Inr st'"
  shows "fst ` set (fst st') = insert name (fst ` set (fst st))"
proof -
  obtain types u where st: "st = (types, u)" by (cases st)
  from assms have "scan_item (types, u) (name, v) = Inr st'" by (simp add: st)
  then show ?thesis
  proof (cases rule: scan_item_Inr)
    case new
    with st show ?thesis by (simp add: keys_dict_set)
  next
    case (new_resolved t)
    with st show ?thesis by (simp add: keys_dict_set)
  next
    case (same y)
    then have "name \<in> fst ` set types"
      by (metis fst_conv image_eqI map_of_SomeD)
    with same st show ?thesis by (simp add: insert_absorb)
  next
    case (resolved t)
    then have "name \<in> fst ` set types"
      by (metis fst_conv image_eqI map_of_SomeD)
    with resolved st show ?thesis by (simp add: keys_dict_set insert_absorb)
  qed
qed

lemma scan_row_keys:
  "scan_row st r = Inr st' \<Longrightarrow> fst ` set (fst st') = fst ` set (fst st) \<union> fst ` set r"
proof (induction r arbitrary: st)
  case Nil
  then show ?case by simp
next
  case (Cons item r)
  obtain name v where item: "item = (name, v)" by (cases item)
  from Cons.prems obtain st1 where
    st1: "scan_item st (name, v) = Inr st1" "scan_row st1 r = Inr st'"
    by (auto simp: item split: sum.splits)
  from Cons.IH[OF st1(2)] scan_item_keys[OF st1(1)] item show ?case by auto
qed

lemma scan_rows_keys:
  "scan_rows st0 pre = Inr st \<Longrightarrow> pre = [] \<or> 0 < snd st \<Longrightarrow>
   fst ` set (fst st) = fst ` set (fst st0) \<union> (\<Union>r \<in> set pre. fst ` set r)"
proof (induction pre arbitrary: st0)
  case Nil
  then show ?case by simp
next
  case (Cons r pre)
  from Cons.prems obtain st1 where r: "scan_row st0 r = Inr st1"
    by (auto split: sum.splits)
  from Cons.prems have pos: "0 < snd st" by simp
  show ?case
  proof (cases "snd st1 \<le> 0")
    case True
    with Cons.prems(1) r pos show ?thesis by simp
  next
    case False
    with Cons.prems(1) r have rest: "scan_rows st1 pre = Inr st" by simp
    from Cons.IH[OF rest] pos scan_row_keys[OF r] show ?thesis by auto
  qed
qed

lemma scan_rows_stops:
  "scan_rows st0 pre = Inr st \<Longrightarrow> pre \<noteq> [] \<Longrightarrow> snd st \<le> 0 \<Longrightarrow>
   scan_rows st0 (pre @ post) = Inr st"
proof (induction pre arbitrary: st0)
  case Nil
  then show ?case by simp
next
  case (Cons r pre)
  from Cons.prems obtain st1 where r: "scan_row st0 r = Inr st1"
    by (auto split: sum.splits)
  show ?case
  proof (cases "snd st1 \<le> 0")
    case True
    with Cons.prems(1) r show ?thesis by simp
  next
    case False
    with Cons.prems(1) r have rest: "scan_rows st1 pre = Inr st" by simp
    with False Cons.prems(3) have "pre \<noteq> []" by auto
    from Cons.IH[OF rest this Cons.prems(3)] r False show ?thesis by simp
  qed
qed

lemma unresolved_zero: "unresolved types = 0 \<longleftrightarrow> (\<forall>c \<in> set types. snd c \<noteq> None)"
  by (auto simp: unresolved_def filter_empty_conv)

lemma unresolved_pos: "0 < unresolved types \<longleftrightarrow> (\<exists>c \<in> set types. snd c = None)"
  by (simp add: unresolved_def filter_empty_conv)

text \<open>
  C1, as amended. Let the scan of the rows \<open>pre\<close> end without an exception in the
  state \<open>st\<close>. Its counter is the number of columns of \<open>st\<close> without a type. If
  \<open>pre\<close> is not empty and every column of \<open>st\<close> has a type, the scan has stopped:
  whatever rows follow, a type switch included, inference returns the descriptors of
  \<open>st\<close>. If \<open>pre\<close> is empty or some column of \<open>st\<close> has no type yet, every row of
  \<open>pre\<close> was scanned (the columns of \<open>st\<close> are the columns of \<open>pre\<close>) and the scan
  goes on to the next row: when it reaches there a non-null value whose inferred type
  differs from the type already frozen for its column, inference fails with the
  type-conflict error that names the column, the frozen type and the new type. (Which
  type a boolean is given is not part of this statement.)
\<close>

theorem type_conflict_detected:
  assumes "scan_rows ([], 0) pre = Inr st"
  shows "snd st = int (unresolved (fst st))
    \<and> (pre \<noteq> [] \<and> (\<forall>c \<in> set (fst st). snd c \<noteq> None) \<longrightarrow>
         (\<forall>post. get_description_from_rows (pre @ post) =
            Inr (map (\<lambda>(name, t). (name, t, None, None, None, None, None)) (fst st))))
    \<and> (pre = [] \<or> (\<exists>c \<in> set (fst st). snd c = None) \<longrightarrow>
         fst ` set (fst st) = (\<Union>r \<in> set pre. fst ` set r)
         \<and> (\<forall>before st' name t v t' after post.
               scan_row st before = Inr st' \<and> map_of (fst st') name = Some (Some t)
               \<and> get_type v = Inr t' \<and> t' \<noteq> t \<longrightarrow>
               get_description_from_rows (pre @ (before @ (name, v) # after) # post) =
                 Inl (DatabaseError (DifferingColumnType name t t'))))"
proof (intro conjI impI allI)
  show counter: "snd st = int (unresolved (fst st))"
    using scan_rows_counter[OF assms] by (simp add: unresolved_def)
  {
    fix post
    assume "pre \<noteq> [] \<and> (\<forall>c \<in> set (fst st). snd c \<noteq> None)"
    then have "pre \<noteq> []" and "snd st \<le> 0"
      using counter unresolved_zero[of "fst st"] by auto
    from scan_rows_stops[OF assms this]
    show "get_description_from_rows (pre @ post) =
            Inr (map (\<lambda>(name, t). (name, t, None, None, None, None, None)) (fst st))"
      by (cases st) (simp add: get_description_from_rows_def)
  }
  assume "pre = [] \<or> (\<exists>c \<in> set (fst st). snd c = None)"
  then have go_on: "pre = [] \<or> 0 < snd st"
    using counter unresolved_pos[of "fst st"] by auto
  from scan_rows_keys[OF assms go_on]
  show "fst ` set (fst st) = (\<Union>r \<in> set pre. fst ` set r)" by simp
  fix before st' name t v t' after post
  assume "scan_row st before = Inr st' \<and> map_of (fst st') name = Some (Some t)
               \<and> get_type v = Inr t' \<and> t' \<noteq> t"
  then have h: "scan_row st before = Inr st'" "map_of (fst st') name = Some (Some t)"
    "get_type v = Inr t'" "t' \<noteq> t" by simp_all
  have "scan_row st (before @ (name, v) # after) =
          Inl (DatabaseError (DifferingColumnType name t t'))"
    using scan_row_append[OF h(1)] scan_item_conflict[OF h(2-4)] by simp
  then have "scan_rows st ((before @ (name, v) # after) # post) =
          Inl (DatabaseError (DifferingColumnType name t t'))"
    by simp
  with scan_rows_append[OF assms go_on]
  show "get_description_from_rows (pre @ (before @ (name, v) # after) # post) =
           Inl (DatabaseError (DifferingColumnType name t t'))"
    by (simp add: get_description_from_rows_def)
qed

theorem type_conflict_detected_witness:
  "get_description_from_rows
     [[(''a'', VNone), (''b'', VInt 1)], [(''a'', VStr ''x''), (''b'', VStr ''y'')]] =
     Inl (DatabaseError (DifferingColumnType ''b'' NUMBER STRING))
   \<and> get_description_from_rows [[(''n'', VInt 2)], [(''n'', VStr ''x'')]] =
     Inr [(''n'', Some NUMBER, None, None, None, None, None)]"
proof
  let ?pre = "[[(''a'', VNone), (''b'', VInt 1)]]"
  let ?st = "([(''a'', None), (''b'', Some NUMBER)], 1 :: int)"
  let ?st' = "([(''a'', Some STRING), (''b'', Some NUMBER)], 0 :: int)"
  have pre: "scan_rows ([], 0) ?pre = Inr ?st"
    by (simp add: scan_item_def get_type_def)
  have open_column: "?pre = [] \<or> (\<exists>c \<in> set (fst ?st). snd c = None)"
    by simp
  have before: "scan_row ?st [(''a'', VStr ''x'')] = Inr ?st'
      \<and> map_of (fst ?st') ''b'' = Some (Some NUMBER)
      \<and> get_type (VStr ''y'') = Inr STRING \<and> STRING \<noteq> NUMBER"
    by (simp add: scan_item_def get_type_def)
  note detect = type_conflict_detected[OF pre, THEN conjunct2, THEN conjunct2, THEN mp,
      OF open_column, THEN conjunct2]
  from detect[rule_format, OF before, of "[]" "[]"]
  show "get_description_from_rows
     [[(''a'', VNone), (''b'', VInt 1)], [(''a'', VStr ''x''), (''b'', VStr ''y'')]] =
     Inl (DatabaseError (DifferingColumnType ''b'' NUMBER STRING))"
    by simp
next
  let ?pre = "[[(''n'', VInt 2)]]"
  let ?st = "([(''n'', Some NUMBER)], 0 :: int)"
  have pre: "scan_rows ([], 0) ?pre = Inr ?st"
    by (simp add: scan_item_def get_type_def)
  have resolved: "?pre \<noteq> [] \<and> (\<forall>c \<in> set (fst ?st). snd c \<noteq> None)"
    by simp
  note stop = type_conflict_detected[OF pre, THEN conjunct2, THEN conjunct1, THEN mp,
      OF resolved]
  from stop[rule_format, of "[[(''n'', VStr ''x'')]]"]
  show "get_description_from_rows [[(''n'', VInt 2)], [(''n'', VStr ''x'')]] =
     Inr [(''n'', Some NUMBER, None, None, None, None, None)]"
    by simp
qed

text \<open>
  The claim as stated fails twice. A column whose only value is a boolean is resolved
  to \<open>NUMBER\<close>, not to \<open>BOOLEAN\<close>: \<open>get_type\<close> tests for \<open>(int, float)\<close> first.
  And a column that is a number in the first row and a string in the second raises
  nothing: after the first row every column is resolved and the scan stops.
\<close>

theorem type_inference_counterexample:
  "get_description_from_rows [[(''a'', VBool True)]] =
     Inr [(''a'', Some NUMBER, None, None, None, None, None)]
   \<and> get_description_from_rows [[(''a'', VInt 1)], [(''a'', VStr ''x'')]] =
     Inr [(''a'', Some NUMBER, None, None, None, None, None)]"
  by (simp add: get_description_from_rows_def scan_item_def get_type_def)

section \<open>Group keys\<close>

text \<open>
  The three cases of \<open>group_key\<close> when at least one group-by column is declared: a
  list that is too short is an error, a list of the right length is the key, and of a
  list with \<open>k\<close> values too many the first \<open>k\<close> are concatenated onto the front of
  the next one. With no declared column a list that is not empty raises \<open>IndexError\<close>.
\<close>

lemma join_empty_sep: "join [] xs = concat xs"
  by (induction "[] :: string" xs rule: join.induct) auto

lemma group_key_shorter:
  "length group_values < length gby_cols \<Longrightarrow>
   group_key gby_cols group_values =
     Inl (DatabaseError (ExpectedToContain (length gby_cols) (length group_values)))"
  by (simp add: group_key_def)

lemma group_key_same: "length group_values = length gby_cols \<Longrightarrow> group_key gby_cols group_values = Inr group_values"
  by (simp add: group_key_def)

lemma group_key_longer:
  assumes "gby_cols \<noteq> []" and "length group_values = length gby_cols + k" and "0 < k"
  shows "group_key gby_cols group_values =
           Inr ((concat (take k group_values) @ group_values ! k) # drop (Suc k) group_values)"
proof -
  have k: "k < length group_values" using assms by (cases gby_cols) auto
  then have "drop k group_values = group_values ! k # drop (Suc k) group_values"
    by (simp add: Cons_nth_drop_Suc)
  with assms show ?thesis
    by (simp add: group_key_def join_empty_sep Let_def)
qed

lemma group_key_no_columns:
  "group_values \<noteq> [] \<Longrightarrow> group_key [] group_values = Inl IndexError"
  by (simp add: group_key_def)

lemma group_loop_shorter:
  "length (group gb) < length gby_cols \<Longrightarrow>
   group_loop gby_cols n i gby_rows (gb # gbs) =
     Inl (DatabaseError (ExpectedToContain (length gby_cols) (length (group gb))))"
  by (simp add: group_key_shorter)

lemmas normalize_defs =
  normalize_aggregation_def get_group_by_column_names_def enumerate_def group_key_def
  ensure_key_def set_slot_def


section \<open>Totals and groups in one response\<close>

text \<open>
  What \<open>metric_loop\<close> rejects: a total metric when the agreed list of group-by
  columns is not empty, and a grouped metric that comes after a total metric.
\<close>

lemma set_slot_keeps_key:
  "set_slot gby_rows key i v = Inr gby_rows' \<Longrightarrow> map_of gby_rows k \<noteq> None \<Longrightarrow> map_of gby_rows' k \<noteq> None"
  by (auto simp: set_slot_def map_of_dict_set split: option.splits if_splits)

lemma set_slot_has_key:
  "set_slot gby_rows key i v = Inr gby_rows' \<Longrightarrow> map_of gby_rows' key \<noteq> None"
  by (auto simp: set_slot_def map_of_dict_set split: option.splits if_splits)

lemma total_with_columns_rejected:
  assumes "gby_cols \<noteq> []" and "m \<in> snd ` set ims" and "groupByResult m = None"
  shows "\<exists>e. metric_loop gby_cols n gby_rows ims = Inl e"
  using assms(2)
proof (induction ims arbitrary: gby_rows)
  case Nil
  then show ?case by simp
next
  case (Cons im ims)
  obtain i a where im: "im = (i, a)" by (cases im)
  show ?case
  proof (cases "groupByResult a")
    case None
    with assms(1) im show ?thesis by (simp add: Let_def)
  next
    case (Some gbs)
    with Cons.prems im assms(3) have "m \<in> snd ` set ims" by auto
    from Cons.IH[OF this] Some im show ?thesis
      by (auto split: sum.splits)
  qed
qed

lemma metric_loop_step:
  assumes "metric_loop gby_cols n gby_rows ((i, a) # ims) = Inr res"
  shows "\<exists>rows'. metric_loop gby_cols n rows' ims = Inr res
            \<and> (groupByResult a = None \<longrightarrow> map_of rows' [] \<noteq> None)
            \<and> (groupByResult a \<noteq> None \<longrightarrow> map_of gby_rows [] = None)"
proof (cases "groupByResult a")
  case None
  with assms obtain v rows' where
    "set_slot (ensure_key gby_rows [] n) [] i v = Inr rows'"
    "metric_loop gby_cols n rows' ims = Inr res"
    by (auto simp: Let_def split: if_splits option.splits sum.splits)
  with None set_slot_has_key show ?thesis by blast
next
  case (Some gbs)
  with assms show ?thesis
    by (auto split: if_splits sum.splits)
qed

lemma grouped_after_total_rejected:
  assumes "map_of gby_rows [] \<noteq> None" and "m \<in> snd ` set ims" and "groupByResult m \<noteq> None"
  shows "\<exists>e. metric_loop gby_cols n gby_rows ims = Inl e"
  using assms(1,2)
proof (induction ims arbitrary: gby_rows)
  case Nil
  then show ?case by simp
next
  case (Cons im ims)
  obtain i a where im: "im = (i, a)" by (cases im)
  show ?case
  proof (cases "metric_loop gby_cols n gby_rows (im # ims)")
    case (Inl e)
    then show ?thesis by simp
  next
    case (Inr res)
    have "metric_loop gby_cols n gby_rows ((i, a) # ims) = Inr res"
      using Inr im by simp
    from metric_loop_step[OF this] Cons.prems(1) obtain rows' where
      rows': "metric_loop gby_cols n rows' ims = Inr res"
        "groupByResult a = None" "map_of rows' [] \<noteq> None"
      by auto
    with Cons.prems(2) im assms(3) have "m \<in> snd ` set ims" by auto
    from Cons.IH[OF rows'(3) this] rows'(1) show ?thesis by simp
  qed
qed

lemma total_before_grouped_rejected:
  assumes "map snd ims = xs @ g # ys" and "groupByResult g = None"
    and "m \<in> set ys" and "groupByResult m \<noteq> None"
  shows "\<exists>e. metric_loop gby_cols n gby_rows ims = Inl e"
  using assms(1)
proof (induction xs arbitrary: ims gby_rows)
  case Nil
  then obtain i ims' where ims: "ims = (i, g) # ims'" and ys: "map snd ims' = ys"
    by (cases ims) auto
  from ys assms(3) have tail: "m \<in> snd ` set ims'" by auto
  show ?case
  proof (cases "metric_loop gby_cols n gby_rows ims")
    case (Inl e)
    then show ?thesis by simp
  next
    case (Inr res)
    have "metric_loop gby_cols n gby_rows ((i, g) # ims') = Inr res"
      using Inr ims by simp
    from metric_loop_step[OF this] assms(2) obtain rows' where
      rows': "metric_loop gby_cols n rows' ims' = Inr res" "map_of rows' [] \<noteq> None"
      by auto
    from grouped_after_total_rejected[OF rows'(2) tail assms(4), of gby_cols n] rows'(1)
    show ?thesis by simp
  qed
next
  case (Cons x xs)
  then obtain i ims' where ims: "ims = (i, x) # ims'" and rest: "map snd ims' = xs @ g # ys"
    by (cases ims) auto
  show ?case
  proof (cases "metric_loop gby_cols n gby_rows ims")
    case (Inl e)
    then show ?thesis by simp
  next
    case (Inr res)
    have "metric_loop gby_cols n gby_rows ((i, x) # ims') = Inr res"
      using Inr ims by simp
    from metric_loop_step[OF this] obtain rows' where
      "metric_loop gby_cols n rows' ims' = Inr res"
      by auto
    with Cons.IH[OF rest, of rows'] show ?thesis by simp
  qed
qed

lemma map_snd_enumerate: "map snd (enumerate xs) = xs"
  by (simp add: enumerate_def)

lemma normalize_fails_with_loop:
  assumes "\<And>gby_cols n. \<exists>e. metric_loop gby_cols n [] (enumerate aggregation_results) = Inl e"
  shows "\<exists>e. normalize_aggregation aggregation_results = Inl e"
proof (cases "get_group_by_column_names aggregation_results")
  case (Inl e)
  then show ?thesis by (simp add: normalize_aggregation_def)
next
  case cols: (Inr gby_cols)
  show ?thesis
  proof (cases "metric_names_of aggregation_results")
    case (Inl e)
    with cols show ?thesis by (simp add: normalize_aggregation_def)
  next
    case (Inr metric_names)
    from assms[of gby_cols "length metric_names"] obtain e where
      "metric_loop gby_cols (length metric_names) [] (enumerate aggregation_results) = Inl e"
      by blast
    with cols Inr show ?thesis by (simp add: normalize_aggregation_def)
  qed
qed

lemma normalize_total_before_grouped:
  assumes "aggregation_results = xs @ g # ys" and "groupByResult g = None"
    and "m \<in> set ys" and "groupByResult m \<noteq> None"
  shows "\<exists>e. normalize_aggregation aggregation_results = Inl e"
proof -
  have "map snd (enumerate aggregation_results) = xs @ g # ys"
    using assms(1) by (simp add: map_snd_enumerate)
  from total_before_grouped_rejected[OF this assms(2-4)] show ?thesis
    by (intro normalize_fails_with_loop) 
qed

lemma group_by_cols_loop_nonempty:
  "group_by_cols_loop acc ms = Inr cols \<Longrightarrow>
   acc \<noteq> [] \<or> (\<exists>m \<in> set ms. \<exists>cs. groupByColumns m = Some cs \<and> cs \<noteq> []) \<Longrightarrow> cols \<noteq> []"
proof (induction acc ms rule: group_by_cols_loop.induct)
  case (1 group_by_cols)
  then show ?case by simp
next
  case (2 group_by_cols m ms)
  then show ?case
    by (auto simp: Let_def split: if_splits option.splits)
qed

lemma normalize_total_with_columns:
  assumes "m \<in> set aggregation_results" and "groupByColumns m = Some cs" and "cs \<noteq> []"
    and "g \<in> set aggregation_results" and "groupByResult g = None"
  shows "\<exists>e. normalize_aggregation aggregation_results = Inl e"
proof (cases "get_group_by_column_names aggregation_results")
  case (Inl e)
  then show ?thesis by (simp add: normalize_aggregation_def)
next
  case (Inr gby_cols)
  with assms(1-3) have cols: "gby_cols \<noteq> []"
    using group_by_cols_loop_nonempty[of "[]" aggregation_results gby_cols]
    by (auto simp: get_group_by_column_names_def)
  have "g \<in> snd ` set (enumerate aggregation_results)"
    using assms(4) map_snd_enumerate[of aggregation_results]
    by (metis set_map)
  note loop = total_with_columns_rejected[OF cols this assms(5)]
  show ?thesis
  proof (cases "metric_names_of aggregation_results")
    case (Inl e)
    with Inr show ?thesis by (simp add: normalize_aggregation_def)
  next
    case names: (Inr metric_names)
    from loop[of "length metric_names" "[]"] obtain e where
      "metric_loop gby_cols (length metric_names) [] (enumerate aggregation_results) = Inl e"
      by blast
    with Inr names show ?thesis by (simp add: normalize_aggregation_def)
  qed
qed

text \<open>
  C5. The claim is that every response with both a total metric and a grouped metric
  is rejected. The code rejects it when a grouped metric declares a column, and when
  the total metric comes first. When the grouped metric comes first, declares no column
  and has no entry, or only entries with an empty \<open>group\<close> list, nothing is raised and
  the two metrics are merged into one row; the same two metrics in the other order are
  rejected.
\<close>

theorem total_and_grouped_merged:
  "normalize_aggregation [grouped_no_entries, total_metric] =
     Inr [[(''count'', VNone), (''sum'', VInt 7)]]
   \<and> normalize_aggregation [grouped_empty_group, total_metric] =
     Inr [[(''count'', VInt 5), (''sum'', VInt 7)]]
   \<and> normalize_aggregation [total_metric, grouped_no_entries] =
     Inl (DatabaseError BothTotalAndGroupBy)
   \<and> normalize_aggregation [total_metric, grouped_empty_group] =
     Inl (DatabaseError BothTotalAndGroupBy)"
  by (simp add: normalize_defs total_metric_def grouped_no_entries_def
      grouped_empty_group_def)

end
